theory Spec2Isabelle
  imports Main
begin

section \<open>Go values shared by all handlers of main.go\<close>

text \<open>
  A Go \<open>string\<close> is a byte sequence, here a \<open>string\<close> (list of 8-bit characters).
  A value of the interface type \<open>error\<close> is \<open>None\<close> for \<open>nil\<close> and \<open>Some (Error msg)\<close>
  otherwise. A panic is either \<open>panic(err)\<close> raised by \<open>orPanic\<close> or the runtime's nil
  pointer dereference; a function that may panic returns \<open>panic + 'a\<close>.
\<close>

datatype error = Error string

datatype panic = Panic error | NilDereference | IndexOutOfRange

definition CRLF :: string where
  "CRLF = [CHR 0x0D, CHR 0x0A]"

definition orPanic :: "error option \<Rightarrow> panic + unit" where
  "orPanic err = (case err of None \<Rightarrow> Inr () | Some e \<Rightarrow> Inl (Panic e))"

text \<open>The verb \<open>%v\<close> of package fmt applied to an \<open>error\<close>: its message, or \<open><nil>\<close>.\<close>

definition Sprint_error :: "error option \<Rightarrow> string" where
  "Sprint_error err = (case err of None \<Rightarrow> ''<nil>'' | Some (Error msg) \<Rightarrow> msg)"

subsection \<open>Package strings\<close>

definition ascii_lower :: "char \<Rightarrow> char" where
  "ascii_lower c =
     (let n = (of_char c :: nat) in if 65 \<le> n \<and> n \<le> 90 then char_of (n + 32) else c)"

definition isASCII :: "string \<Rightarrow> bool" where
  "isASCII s = list_all (\<lambda>c. (of_char c :: nat) < 128) s"

text \<open>
  \<open>strings.ToLower\<close>: a string of ASCII bytes is lowered byte by byte; any other string
  goes through \<open>strings.Map(unicode.ToLower, s)\<close>, whose case tables are not part of this
  program and are taken as the parameter \<open>unicode_lower\<close>.
\<close>

definition ToLower :: "(string \<Rightarrow> string) \<Rightarrow> string \<Rightarrow> string" where
  "ToLower unicode_lower s = (if isASCII s then map ascii_lower s else unicode_lower s)"

text \<open>\<open>strings.Join(elems, sep)\<close>.\<close>

fun Join :: "string list \<Rightarrow> string \<Rightarrow> string" where
  "Join [] sep = []"
| "Join [x] sep = x"
| "Join (x # y # ys) sep = x @ sep @ Join (y # ys) sep"

text \<open>
  \<open>strings.Split(s, ":")\<close>: the pieces of \<open>s\<close> between the separators.
\<close>

fun Split_colon :: "string \<Rightarrow> string list" where
  "Split_colon [] = [[]]"
| "Split_colon (c # cs) =
     (if c = CHR '':'' then [] # Split_colon cs
      else (case Split_colon cs of
              [] \<Rightarrow> [[c]]
            | p # ps \<Rightarrow> (c # p) # ps))"

text \<open>\<open>fmt.Sprintf("%v: %v", name, h)\<close> on two strings.\<close>

definition Sprintf_header :: "string \<Rightarrow> string \<Rightarrow> string" where
  "Sprintf_header name h = name @ '': '' @ h"

section \<open>The request log (HttpLogger)\<close>

text \<open>
  A row of table \<open>requests\<close> as \<open>LogReq\<close> inserts it (\<open>id\<close> and \<open>created_at\<close> are filled
  in by the store). The disk maps a data source name to the rows of its table that
  readers can see; \<open>None\<close> is a file without the table.
\<close>

record LoggedRequest =
  from_ip :: string
  req_method :: string
  host :: string
  url :: string
  headers :: string

type_synonym disk = "string \<rightharpoonup> LoggedRequest list"

record DB =
  driverName :: string
  dataSourceName :: string

record HttpLogger =
  db :: DB

text \<open>
  An \<open>http.Request\<close>, with the fields this program and \<open>req.Write\<close> read;
  \<open>URL_String\<close> is the value of \<open>req.URL.String()\<close>, \<open>URL_RequestURI\<close> that of
  \<open>req.URL.RequestURI()\<close>, and \<open>URL_Host\<close>, \<open>URL_Path\<close> and \<open>URL_Opaque\<close> are the fields
  \<open>Host\<close>, \<open>Path\<close> and \<open>Opaque\<close> of \<open>req.URL\<close>. \<open>Header\<close> is a Go map from name to value
  list; the list here holds its entries in the order in which the \<open>range\<close> statement
  of \<open>LogReq\<close> happens to visit them. An \<open>http.Response\<close> is only passed on by this
  program.
\<close>

record Request =
  Method :: string
  URL_String :: string
  URL_Host :: string
  URL_Path :: string
  URL_Opaque :: string
  URL_RequestURI :: string
  Proto :: string
  Header :: "(string \<times> string list) list"
  Host :: string
  RemoteAddr :: string
  Body :: string

record Response =
  Status :: string
  RespProto :: string
  RespHeader :: "(string \<times> string list) list"
  RespBody :: string

text \<open>
  What the handlers do to the outside world, in program order: the calls into
  database/sql, \<open>ctx.Logf\<close>, and the calls on the two connections of a tunnel, each
  fallible call of the relay loop with what it returned.
\<close>

datatype conn = Client | Remote

datatype event =
    Begin
  | Prepare string
  | Exec LoggedRequest
  | Commit
  | Logf string
  | Dial string string
  | Write conn string
  | ReadRequest "error + Request"
  | Request_Write Request "error option"
  | Flush conn "error option"
  | ReadResponse Request "error + Response"
  | Response_Write Response "error option"
  | Close conn

subsection \<open>NewLogger\<close>

text \<open>
  The outcomes of the two calls into database/sql. \<open>sql.Open\<close> returns a nil handle with
  its error; the error is dropped by \<open>NewLogger\<close>, and \<open>Exec\<close> on the nil handle is a nil
  pointer dereference.
\<close>

record open_outcomes =
  open_err :: "error option"
  schema_err :: "error option"

definition sql_Open :: "string \<Rightarrow> string \<Rightarrow> error option \<Rightarrow> DB option" where
  "sql_Open drv dsn err =
     (case err of None \<Rightarrow> Some \<lparr>driverName = drv, dataSourceName = dsn\<rparr> | Some e \<Rightarrow> None)"

text \<open>\<open>create table if not exists requests (...)\<close> on the file of the handle.\<close>

definition create_table :: "DB \<Rightarrow> disk \<Rightarrow> disk" where
  "create_table d files =
     (case files (dataSourceName d) of
        None \<Rightarrow> files(dataSourceName d \<mapsto> [])
      | Some rows \<Rightarrow> files)"

definition NewLogger ::
  "string \<Rightarrow> open_outcomes \<Rightarrow> disk \<Rightarrow> panic + (HttpLogger \<times> error option \<times> disk)" where
  "NewLogger dbname oc files =
     (case sql_Open ''sqlite3'' ''./log.db'' (open_err oc) of
        None \<Rightarrow> Inl NilDereference
      | Some d \<Rightarrow>
          (case orPanic (schema_err oc) of
             Inl p \<Rightarrow> Inl p
           | Inr _ \<Rightarrow> Inr (\<lparr>db = d\<rparr>, None, create_table d files)))"

subsection \<open>LogReq\<close>

text \<open>The two nested \<open>range\<close> loops that fill \<open>headersCol\<close>.\<close>

fun append_headers :: "string \<Rightarrow> string list \<Rightarrow> string list \<Rightarrow> string list" where
  "append_headers name [] headersCol = headersCol"
| "append_headers name (h # hs) headersCol =
     append_headers name hs (headersCol @ [Sprintf_header name h])"

fun range_Header ::
  "(string \<Rightarrow> string) \<Rightarrow> (string \<times> string list) list \<Rightarrow> string list \<Rightarrow> string list" where
  "range_Header ul [] headersCol = headersCol"
| "range_Header ul ((name, hs) # rest) headersCol =
     range_Header ul rest (append_headers (ToLower ul name) hs headersCol)"

text \<open>
  The outcomes of the four calls into database/sql. The errors of \<open>Begin\<close> and \<open>Prepare\<close>
  are dropped by \<open>LogReq\<close>: after a failed \<open>Begin\<close> the transaction is nil and
  \<open>tx.Prepare\<close> dereferences it; after a failed \<open>Prepare\<close> the statement is nil and
  \<open>stmt.Exec\<close> dereferences it.
\<close>

record tx_outcomes =
  begin_err :: "error option"
  prepare_err :: "error option"
  exec_err :: "error option"
  commit_err :: "error option"

definition insert_sql :: string where
  "insert_sql = ''insert into requests (from_ip, method, host, url, headers) values (?,?,?,?,?)''"

text \<open>
  The arguments of \<open>stmt.Exec\<close>. The index \<open>[0]\<close> into the result of \<open>strings.Split\<close>
  panics on an empty slice.
\<close>

definition the_row :: "(string \<Rightarrow> string) \<Rightarrow> Request \<Rightarrow> panic + LoggedRequest" where
  "the_row ul req =
     (case Split_colon (RemoteAddr req) of
        [] \<Rightarrow> Inl IndexOutOfRange
      | ip # _ \<Rightarrow>
          Inr \<lparr>from_ip = ip,
               req_method = Method req,
               host = Host req,
               url = URL_String req,
               headers = Join (range_Header ul (Header req) []) CRLF\<rparr>)"

text \<open>A successful commit makes the rows of the transaction visible; a failed one none.\<close>

definition commit_rows :: "DB \<Rightarrow> LoggedRequest list \<Rightarrow> disk \<Rightarrow> disk" where
  "commit_rows d pending files =
     (case files (dataSourceName d) of
        None \<Rightarrow> files(dataSourceName d \<mapsto> pending)
      | Some rows \<Rightarrow> files(dataSourceName d \<mapsto> rows @ pending))"

text \<open>
  \<open>LogReq\<close>. After a failed insert it logs and returns, leaving the transaction open.
  The message after a failed commit prints \<open>err\<close>, the error of the insert, as the
  source does, not \<open>err3\<close>.
\<close>

definition LogReq ::
  "(string \<Rightarrow> string) \<Rightarrow> HttpLogger \<Rightarrow> Request \<Rightarrow> tx_outcomes \<Rightarrow> disk
     \<Rightarrow> panic + (disk \<times> event list)" where
  "LogReq ul logger req oc files =
     (if begin_err oc \<noteq> None then Inl NilDereference
      else if prepare_err oc \<noteq> None then Inl NilDereference
      else
        (case the_row ul req of
           Inl p \<Rightarrow> Inl p
         | Inr row \<Rightarrow>
             (case exec_err oc of
                Some e \<Rightarrow>
                  Inr (files,
                       [Begin, Prepare insert_sql, Exec row,
                        Logf (''Failed to write request to db, error ''
                              @ Sprint_error (exec_err oc))])
              | None \<Rightarrow>
                  (case commit_err oc of
                     Some e3 \<Rightarrow>
                       Inr (files,
                            [Begin, Prepare insert_sql, Exec row, Commit,
                             Logf (''Failed to commit request to db, error ''
                                   @ Sprint_error (exec_err oc))])
                   | None \<Rightarrow>
                       Inr (commit_rows (db logger) [row] files,
                            [Begin, Prepare insert_sql, Exec row, Commit])))))"

section \<open>The request handler registered with OnRequest().DoFunc\<close>

text \<open>
  The handler installs the round tripper that calls \<open>tr.DetailedRoundTrip\<close>, logs the
  request and returns \<open>(req, nil)\<close>: the request to forward and no response of its own.
\<close>

datatype RoundTripper = DetailedRoundTrip

record ProxyCtx =
  RoundTripper :: "RoundTripper option"

definition DoFunc ::
  "(string \<Rightarrow> string) \<Rightarrow> HttpLogger \<Rightarrow> Request \<Rightarrow> ProxyCtx \<Rightarrow> tx_outcomes \<Rightarrow> disk
     \<Rightarrow> panic + (Request \<times> Response option \<times> ProxyCtx \<times> disk \<times> event list)" where
  "DoFunc ul logger req ctx oc files =
     (let ctx' = ctx\<lparr>RoundTripper := Some DetailedRoundTrip\<rparr> in
      case LogReq ul logger req oc files of
        Inl p \<Rightarrow> Inl p
      | Inr (files', evs) \<Rightarrow> Inr (req, None, ctx', files', evs))"

section \<open>The plaintext tunnel registered with HijackConnect\<close>

text \<open>
  One turn of the \<open>for\<close> loop consumes the outcomes of its six calls: what
  \<open>http.ReadRequest\<close> returns on the client side, whether \<open>req.Write\<close> and \<open>Flush\<close> on
  the remote side fail, what \<open>http.ReadResponse\<close> returns, and whether \<open>resp.Write\<close> and
  \<open>Flush\<close> on the client side fail. A session is the list of the turns the two peers
  offer; when it is used up the client has closed its side and \<open>http.ReadRequest\<close>
  returns \<open>io.EOF\<close>.
\<close>

record round =
  read_request :: "error + Request"
  write_remote :: "error option"
  flush_remote :: "error option"
  read_response :: "error + Response"
  write_client :: "error option"
  flush_client :: "error option"

definition EOF :: error where
  "EOF = Error ''EOF''"

text \<open>
  The loop has no exit but a panic of \<open>orPanic\<close>: the result is the events up to the
  failing call and the panic it raised.
\<close>

fun relay_loop :: "round list \<Rightarrow> event list \<times> panic" where
  "relay_loop [] = ([ReadRequest (Inl EOF)], Panic EOF)"
| "relay_loop (r # rs) =
     (case read_request r of
        Inl e \<Rightarrow> ([ReadRequest (Inl e)], Panic e)
      | Inr req \<Rightarrow>
     (case orPanic (write_remote r) of
        Inl p \<Rightarrow> ([ReadRequest (Inr req), Request_Write req (write_remote r)], p)
      | Inr _ \<Rightarrow>
     (case orPanic (flush_remote r) of
        Inl p \<Rightarrow>
          ([ReadRequest (Inr req), Request_Write req None, Flush Remote (flush_remote r)], p)
      | Inr _ \<Rightarrow>
     (case read_response r of
        Inl e \<Rightarrow>
          ([ReadRequest (Inr req), Request_Write req None, Flush Remote None,
            ReadResponse req (Inl e)], Panic e)
      | Inr resp \<Rightarrow>
     (case orPanic (write_client r) of
        Inl p \<Rightarrow>
          ([ReadRequest (Inr req), Request_Write req None, Flush Remote None,
            ReadResponse req (Inr resp), Response_Write resp (write_client r)], p)
      | Inr _ \<Rightarrow>
     (case orPanic (flush_client r) of
        Inl p \<Rightarrow>
          ([ReadRequest (Inr req), Request_Write req None, Flush Remote None,
            ReadResponse req (Inr resp), Response_Write resp None,
            Flush Client (flush_client r)], p)
      | Inr _ \<Rightarrow>
          (let (evs, p) = relay_loop rs in
           ([ReadRequest (Inr req), Request_Write req None, Flush Remote None,
             ReadResponse req (Inr resp), Response_Write resp None, Flush Client None] @ evs,
            p))))))))"

text \<open>The value recovered from a panic, printed with \<open>%v\<close>.\<close>

definition Sprint_panic :: "panic \<Rightarrow> string" where
  "Sprint_panic p =
     (case p of
        Panic e \<Rightarrow> Sprint_error (Some e)
      | NilDereference \<Rightarrow> ''runtime error: invalid memory address or nil pointer dereference''
      | IndexOutOfRange \<Rightarrow> ''runtime error: index out of range'')"

definition tunnel_established :: string where
  "tunnel_established = ''HTTP/1.1 200 Ok'' @ CRLF @ CRLF"

definition cannot_reach_remote :: string where
  "cannot_reach_remote = ''HTTP/1.1 500 Cannot reach remote'' @ CRLF @ CRLF"

text \<open>The deferred function: \<open>recover()\<close> yields the panic of the body, if there was one.\<close>

definition deferred :: "panic option \<Rightarrow> event list" where
  "deferred e =
     (case e of
        Some p \<Rightarrow>
          [Logf (''error connecting to remote: '' @ Sprint_panic p),
           Write Client cannot_reach_remote]
      | None \<Rightarrow> [])
     @ [Close Client]"

text \<open>The body of the handler, up to the panic that ends it.\<close>

definition hijack_body :: "Request \<Rightarrow> error option \<Rightarrow> round list \<Rightarrow> event list \<times> panic option" where
  "hijack_body req dial_err rounds =
     (case orPanic dial_err of
        Inl p \<Rightarrow> ([Dial ''tcp'' (URL_Host req)], Some p)
      | Inr _ \<Rightarrow>
          (let (evs, p) = relay_loop rounds in
           ([Dial ''tcp'' (URL_Host req), Write Client tunnel_established] @ evs, Some p)))"

definition HijackConnect :: "Request \<Rightarrow> error option \<Rightarrow> round list \<Rightarrow> event list" where
  "HijackConnect req dial_err rounds =
     (let (evs, e) = hijack_body req dial_err rounds in evs @ deferred e)"

section \<open>The stoppable listener\<close>

text \<open>
  A \<open>sync.WaitGroup\<close> is its counter. \<open>Add\<close> panics when the counter would become
  negative, \<open>Done\<close> is \<open>Add(-1)\<close>, and \<open>Wait\<close> returns exactly when the counter is zero.
\<close>

record WaitGroup =
  counter :: int

definition Add :: "WaitGroup \<Rightarrow> int \<Rightarrow> panic + WaitGroup" where
  "Add wg delta =
     (if counter wg + delta < 0 then Inl (Panic (Error ''sync: negative WaitGroup counter''))
      else Inr (wg\<lparr>counter := counter wg + delta\<rparr>))"

definition Done :: "WaitGroup \<Rightarrow> panic + WaitGroup" where
  "Done wg = Add wg (- 1)"

definition Wait_returns :: "WaitGroup \<Rightarrow> bool" where
  "Wait_returns wg = (counter wg = 0)"

text \<open>
  The listener with the connections it has handed out: a connection is named by the
  number of the \<open>Accept\<close> that returned it, and \<open>unclosed\<close> holds those whose underlying
  \<open>net.Conn\<close> has not been closed. Every \<open>stoppableConn\<close> points to the wait group of its
  listener, so the wait group is kept once, in the listener.
\<close>

record stoppableListener =
  wg :: WaitGroup
  accepted :: nat
  unclosed :: "nat set"

definition newStoppableListener :: stoppableListener where
  "newStoppableListener = \<lparr>wg = \<lparr>counter = 0\<rparr>, accepted = 0, unclosed = {}\<rparr>"

text \<open>
  \<open>Accept\<close>, given the error of the wrapped listener's \<open>Accept\<close>: on an error nothing
  changes; otherwise the counter goes up by one and a new connection is returned.
\<close>

definition Accept ::
  "stoppableListener \<Rightarrow> error option \<Rightarrow> panic + (stoppableListener \<times> nat option \<times> error option)" where
  "Accept sl err =
     (case err of
        Some e \<Rightarrow> Inr (sl, None, Some e)
      | None \<Rightarrow>
          (case Add (wg sl) 1 of
             Inl p \<Rightarrow> Inl p
           | Inr wg' \<Rightarrow>
               Inr (sl\<lparr>wg := wg', accepted := Suc (accepted sl),
                       unclosed := insert (accepted sl) (unclosed sl)\<rparr>,
                    Some (accepted sl), None)))"

text \<open>
  \<open>Close\<close> of connection \<open>c\<close>: first \<open>wg.Done()\<close>, then the \<open>Close\<close> of the wrapped
  connection, whose error (on a connection that is already closed) is the result.
\<close>

definition Close_conn ::
  "stoppableListener \<Rightarrow> nat \<Rightarrow> panic + (stoppableListener \<times> error option)" where
  "Close_conn sl c =
     (case Done (wg sl) of
        Inl p \<Rightarrow> Inl p
      | Inr wg' \<Rightarrow>
          Inr (sl\<lparr>wg := wg', unclosed := unclosed sl - {c}\<rparr>,
               if c \<in> unclosed sl then None
               else Some (Error ''use of closed network connection'')))"

text \<open>A history of calls on one listener and its connections.\<close>

datatype call = AcceptCall "error option" | CloseCall nat

fun run_calls :: "stoppableListener \<Rightarrow> call list \<Rightarrow> panic + stoppableListener" where
  "run_calls sl [] = Inr sl"
| "run_calls sl (AcceptCall err # cs) =
     (case Accept sl err of Inl p \<Rightarrow> Inl p | Inr (sl', c, e) \<Rightarrow> run_calls sl' cs)"
| "run_calls sl (CloseCall c # cs) =
     (case Close_conn sl c of Inl p \<Rightarrow> Inl p | Inr (sl', e) \<Rightarrow> run_calls sl' cs)"

section \<open>The handlers registered for CONNECT\<close>

subsection \<open>The two regular expressions\<close>

text \<open>
  Both patterns of main.go are anchored at both ends and use only literal characters
  and \<open>.*\<close>. A compiled pattern is the list of its items between \<open>^\<close> and \<open>$\<close>; in Go's
  syntax the dot matches every character but the line feed, and \<open>$\<close> (without the
  multi-line flag) matches at the end of the text only.
\<close>

datatype re_item = Char char | AnyChar | AnyCharStar

definition line_feed :: char where
  "line_feed = CHR 0x0A"

fun MatchString :: "re_item list \<Rightarrow> string \<Rightarrow> bool" where
  "MatchString [] s = (s = [])"
| "MatchString (Char c # items) [] = False"
| "MatchString (Char c # items) (x # s) = (x = c \<and> MatchString items s)"
| "MatchString (AnyChar # items) [] = False"
| "MatchString (AnyChar # items) (x # s) = (x \<noteq> line_feed \<and> MatchString items s)"
| "MatchString (AnyCharStar # items) [] = MatchString items []"
| "MatchString (AnyCharStar # items) (x # s) =
     (MatchString items (x # s) \<or> (x \<noteq> line_feed \<and> MatchString (AnyCharStar # items) s))"

text \<open>\<open>regexp.MustCompile("^.*$")\<close> and \<open>regexp.MustCompile("^.*:80$")\<close>.\<close>

definition re_any_host :: "re_item list" where
  "re_any_host = [AnyCharStar]"

definition re_port_80 :: "re_item list" where
  "re_port_80 = [AnyCharStar, Char CHR '':'', Char CHR ''8'', Char CHR ''0'']"

text \<open>\<open>goproxy.ReqHostMatches(re)\<close>: the condition that \<open>req.Host\<close> matches.\<close>

definition ReqHostMatches :: "re_item list \<Rightarrow> Request \<Rightarrow> bool" where
  "ReqHostMatches re req = MatchString re (Host req)"

subsection \<open>The handlers\<close>

datatype ConnectAction =
  ConnectAccept | ConnectReject | ConnectMitm | ConnectHijack | ConnectHTTPMitm

definition OkConnect :: ConnectAction where
  "OkConnect = ConnectAccept"

definition MitmConnect :: ConnectAction where
  "MitmConnect = ConnectMitm"

text \<open>
  A registered handler answers with an action, or with nil when its condition does not
  hold. The first registration of main.go answers \<open>MitmConnect\<close> for every host that
  matches \<open>^.*$\<close>; the second, made with \<open>HijackConnect\<close>, answers with the hijack action
  (which runs the plaintext tunnel) for every host that matches \<open>^.*:80$\<close>.
\<close>

type_synonym HttpsHandler = "Request \<Rightarrow> ConnectAction option"

definition mitm_handler :: HttpsHandler where
  "mitm_handler req = (if ReqHostMatches re_any_host req then Some MitmConnect else None)"

definition hijack_handler :: HttpsHandler where
  "hijack_handler req = (if ReqHostMatches re_port_80 req then Some ConnectHijack else None)"

text \<open>The handlers in the order in which main.go registers them.\<close>

definition httpsHandlers :: "HttpsHandler list" where
  "httpsHandlers = [mitm_handler, hijack_handler]"

text \<open>
  The loop of the goproxy library over the registered CONNECT handlers (its
  \<open>handleHttps\<close>; the library is a dependency of main.go and not part of this
  repository). It starts from the default action \<open>OkConnect\<close>, asks the handlers in
  registration order, and stops at the first answer that is not nil, which it takes;
  the handlers registered after that one are not asked.
\<close>

fun handleHttps :: "HttpsHandler list \<Rightarrow> ConnectAction \<Rightarrow> Request \<Rightarrow> ConnectAction" where
  "handleHttps [] todo req = todo"
| "handleHttps (h # hs) todo req =
     (case h req of None \<Rightarrow> handleHttps hs todo req | Some action \<Rightarrow> action)"

definition connect_action :: "Request \<Rightarrow> ConnectAction" where
  "connect_action req = handleHttps httpsHandlers OkConnect req"

section \<open>The wire form of a relayed request\<close>

text \<open>
  The tunnel does not copy bytes: \<open>http.ReadRequest\<close> parses a request and \<open>req.Write\<close>
  prints it again. The first line that \<open>req.Write\<close> prints is the method (\<open>GET\<close> when
  empty), the request URI and the fixed protocol \<open>HTTP/1.1\<close>; the header block and body
  that follow are not modelled and are the parameter \<open>rest\<close>. The request URI is
  \<open>req.URL.RequestURI()\<close>, but for a \<open>CONNECT\<close> with an empty path it is the opaque part
  of the URL or, without one, the host: \<open>req.Host\<close>, or \<open>req.URL.Host\<close> when that is
  empty (for a host that needs no cleaning).
\<close>

definition write_host :: "Request \<Rightarrow> string" where
  "write_host req = (if Host req = [] then URL_Host req else Host req)"

definition write_ruri :: "Request \<Rightarrow> string" where
  "write_ruri req =
     (if Method req = ''CONNECT'' \<and> URL_Path req = [] then
        (if URL_Opaque req \<noteq> [] then URL_Opaque req else write_host req)
      else URL_RequestURI req)"

definition request_line :: "Request \<Rightarrow> string" where
  "request_line req =
     (if Method req = [] then ''GET'' else Method req) @ '' '' @ write_ruri req
     @ '' HTTP/1.1'' @ CRLF"

definition Request_Write_bytes :: "(Request \<Rightarrow> string) \<Rightarrow> Request \<Rightarrow> string" where
  "Request_Write_bytes rest req = request_line req @ rest req"

text \<open>
  What \<open>http.ReadRequest\<close> takes as the request line: the bytes before the first line
  feed, without a carriage return at their end, cut at the first two spaces into
  method, request URI and protocol. Input that ends before a line feed has no request
  line: \<open>http.ReadRequest\<close> fails on it.
\<close>

definition first_line :: "string \<Rightarrow> string option" where
  "first_line s =
     (if line_feed \<in> set s then
        (let l = takeWhile (\<lambda>c. c \<noteq> line_feed) s in
         Some (if l \<noteq> [] \<and> last l = CHR 0x0D then butlast l else l))
      else None)"

fun Cut_space :: "string \<Rightarrow> (string \<times> string) option" where
  "Cut_space [] = None"
| "Cut_space (c # cs) =
     (if c = CHR '' '' then Some ([], cs)
      else (case Cut_space cs of None \<Rightarrow> None | Some (before, after) \<Rightarrow> Some (c # before, after)))"

definition parseRequestLine :: "string \<Rightarrow> (string \<times> string \<times> string) option" where
  "parseRequestLine line =
     (case Cut_space line of
        None \<Rightarrow> None
      | Some (m, rest) \<Rightarrow>
          (case Cut_space rest of
             None \<Rightarrow> None
           | Some (requestURI, proto) \<Rightarrow> Some (m, requestURI, proto)))"

definition read_request_line :: "string \<Rightarrow> (string \<times> string \<times> string) option" where
  "read_request_line s =
     (case first_line s of None \<Rightarrow> None | Some line \<Rightarrow> parseRequestLine line)"

section \<open>Specification-side definitions\<close>

text \<open>
  The header text as the specification words it: one line \<open>name: value\<close> per header
  occurrence, the name lower-cased, the values of one name in their order.
\<close>

definition header_lines :: "(string \<Rightarrow> string) \<Rightarrow> (string \<times> string list) list \<Rightarrow> string list" where
  "header_lines ul hdr =
     concat (map (\<lambda>(name, vs). map (\<lambda>v. ToLower ul name @ '': '' @ v) vs) hdr)"

text \<open>The rows of a table that a reader sees.\<close>

definition visible :: "disk \<Rightarrow> string \<Rightarrow> LoggedRequest list" where
  "visible files dsn = (case files dsn of None \<Rightarrow> [] | Some rows \<Rightarrow> rows)"

text \<open>
  A monitor for the ordering of a tunnel: a request may be read only when no earlier
  request is waiting for its response to be written and flushed to the client.
\<close>

datatype phase = Idle | Pending | Written

fun sequential :: "phase \<Rightarrow> event list \<Rightarrow> bool" where
  "sequential ph [] = True"
| "sequential ph (ReadRequest res # evs) =
     (ph = Idle \<and> sequential (case res of Inl e \<Rightarrow> Idle | Inr req \<Rightarrow> Pending) evs)"
| "sequential ph (Response_Write resp None # evs) =
     sequential (if ph = Pending then Written else ph) evs"
| "sequential ph (Flush Client None # evs) =
     sequential (if ph = Written then Idle else ph) evs"
| "sequential ph (ev # evs) = sequential ph evs"

fun requests_read :: "event list \<Rightarrow> Request list" where
  "requests_read [] = []"
| "requests_read (ReadRequest (Inr req) # evs) = req # requests_read evs"
| "requests_read (ev # evs) = requests_read evs"

fun responses_written :: "event list \<Rightarrow> Response list" where
  "responses_written [] = []"
| "responses_written (Response_Write resp None # evs) = resp # responses_written evs"
| "responses_written (ev # evs) = responses_written evs"

fun is_ReadRequest :: "event \<Rightarrow> bool" where
  "is_ReadRequest (ReadRequest res) = True"
| "is_ReadRequest ev = False"

text \<open>A turn of the loop in which every call succeeds.\<close>

definition served :: "Request \<times> Response \<Rightarrow> round" where
  "served qr = \<lparr>read_request = Inr (fst qr), write_remote = None, flush_remote = None,
                read_response = Inr (snd qr), write_client = None, flush_client = None\<rparr>"

section \<open>Concrete inputs\<close>

definition GET_request :: Request where
  "GET_request =
     \<lparr>Method = ''GET'', URL_String = ''http://example.com/'', URL_Host = ''example.com'',
      URL_Path = ''/'', URL_Opaque = [], URL_RequestURI = ''/'', Proto = ''HTTP/1.1'',
      Header = [(''Accept'', [''text/html'', ''*/*'']), (''X-Id'', [''7''])],
      Host = ''example.com'', RemoteAddr = ''10.0.0.9:41000'', Body = []\<rparr>"

definition GET_row :: LoggedRequest where
  "GET_row = \<lparr>from_ip = ''10.0.0.9'', req_method = ''GET'', host = ''example.com'',
             url = ''http://example.com/'',
             headers = ''accept: text/html'' @ CRLF @ ''accept: */*'' @ CRLF @ ''x-id: 7''\<rparr>"

definition log_db :: HttpLogger where
  "log_db = \<lparr>db = \<lparr>driverName = ''sqlite3'', dataSourceName = ''./log.db''\<rparr>\<rparr>"

definition tx_ok :: tx_outcomes where
  "tx_ok = \<lparr>begin_err = None, prepare_err = None, exec_err = None, commit_err = None\<rparr>"

definition tx_insert_fails :: tx_outcomes where
  "tx_insert_fails = \<lparr>begin_err = None, prepare_err = None,
      exec_err = Some (Error ''attempt to write a readonly database''), commit_err = None\<rparr>"

definition tx_commit_fails :: tx_outcomes where
  "tx_commit_fails = \<lparr>begin_err = None, prepare_err = None,
      exec_err = None, commit_err = Some (Error ''database is locked'')\<rparr>"

text \<open>The table is missing: the insert statement cannot be prepared.\<close>

definition tx_prepare_fails :: tx_outcomes where
  "tx_prepare_fails = \<lparr>begin_err = None,
      prepare_err = Some (Error ''no such table: requests''), exec_err = None, commit_err = None\<rparr>"

text \<open>
  A disciplined history of the listener: every \<open>Close\<close> is on a connection that has been
  accepted and is not yet closed.
\<close>

fun closes_once :: "stoppableListener \<Rightarrow> call list \<Rightarrow> bool" where
  "closes_once sl [] = True"
| "closes_once sl (AcceptCall err # cs) =
     (case Accept sl err of Inl p \<Rightarrow> False | Inr (sl', c, e) \<Rightarrow> closes_once sl' cs)"
| "closes_once sl (CloseCall c # cs) =
     (c \<in> unclosed sl \<and>
      (case Close_conn sl c of Inl p \<Rightarrow> False | Inr (sl', e) \<Rightarrow> closes_once sl' cs))"

text \<open>The counter is the number of accepted connections that are not closed.\<close>

definition counts_unclosed :: "stoppableListener \<Rightarrow> bool" where
  "counts_unclosed sl = (finite (unclosed sl) \<and> counter (wg sl) = int (card (unclosed sl)))"

definition numbered_below :: "stoppableListener \<Rightarrow> bool" where
  "numbered_below sl = (\<forall>c \<in> unclosed sl. c < accepted sl)"

text \<open>
  A monitor for what the tunnel hands to \<open>Write\<close>: the request written to the remote
  side, and the one passed to \<open>http.ReadResponse\<close>, is the request last read from the
  client; the response written to the client is the response last read from the remote
  side.
\<close>

fun unmodified :: "Request option \<Rightarrow> Response option \<Rightarrow> event list \<Rightarrow> bool" where
  "unmodified q r [] = True"
| "unmodified q r (ReadRequest res # evs) =
     unmodified (case res of Inl e \<Rightarrow> None | Inr q' \<Rightarrow> Some q') None evs"
| "unmodified q r (Request_Write q' err # evs) = (q = Some q' \<and> unmodified q r evs)"
| "unmodified q r (ReadResponse q' res # evs) =
     (q = Some q' \<and> unmodified q (case res of Inl e \<Rightarrow> None | Inr r' \<Rightarrow> Some r') evs)"
| "unmodified q r (Response_Write r' err # evs) = (r = Some r' \<and> unmodified q r evs)"
| "unmodified q r (ev # evs) = unmodified q r evs"

fun is_relay_event :: "event \<Rightarrow> bool" where
  "is_relay_event (ReadRequest res) = True"
| "is_relay_event (Request_Write q err) = True"
| "is_relay_event (ReadResponse q res) = True"
| "is_relay_event (Response_Write r err) = True"
| "is_relay_event ev = False"

text \<open>The bytes that reach the remote side: the wire form of every request written.\<close>

fun upstream_bytes :: "(Request \<Rightarrow> string) \<Rightarrow> event list \<Rightarrow> string" where
  "upstream_bytes rest [] = []"
| "upstream_bytes rest (Request_Write q None # evs) =
     Request_Write_bytes rest q @ upstream_bytes rest evs"
| "upstream_bytes rest (ev # evs) = upstream_bytes rest evs"

fun is_Close :: "event \<Rightarrow> bool" where
  "is_Close (Close c) = True"
| "is_Close ev = False"

subsection \<open>More concrete inputs\<close>

definition CONNECT_request :: Request where
  "CONNECT_request =
     \<lparr>Method = ''CONNECT'', URL_String = ''//example.com:80'', URL_Host = ''example.com:80'',
      URL_Path = [], URL_Opaque = [], URL_RequestURI = ''/'', Proto = ''HTTP/1.1'', Header = [],
      Host = ''example.com:80'', RemoteAddr = ''10.0.0.9:41000'', Body = []\<rparr>"

text \<open>A request of an HTTP/1.0 client, as sent and as parsed.\<close>

definition http10_bytes :: string where
  "http10_bytes = ''GET / HTTP/1.0'' @ CRLF @ CRLF"

definition http10_request :: Request where
  "http10_request =
     \<lparr>Method = ''GET'', URL_String = ''/'', URL_Host = [], URL_Path = ''/'', URL_Opaque = [],
      URL_RequestURI = ''/'',
      Proto = ''HTTP/1.0'', Header = [], Host = [], RemoteAddr = [], Body = []\<rparr>"

definition ok_response :: Response where
  "ok_response = \<lparr>Status = ''200 OK'', RespProto = ''HTTP/1.0'', RespHeader = [], RespBody = []\<rparr>"

section \<open>Properties of the request log\<close>

subsection \<open>Helper facts\<close>

lemma Split_colon_nonempty: "Split_colon s \<noteq> []"
  by (induction s) (auto split: list.splits)

lemma append_headers_eq:
  "append_headers name hs col = col @ map (\<lambda>v. name @ '': '' @ v) hs"
  by (induction hs arbitrary: col) (simp_all add: Sprintf_header_def)

lemma range_Header_eq:
  "range_Header ul hdr col = col @ header_lines ul hdr"
  by (induction hdr arbitrary: col) (auto simp: header_lines_def append_headers_eq)

lemma header_lines_length:
  "length (header_lines ul hdr) = sum_list (map (\<lambda>(name, vs). length vs) hdr)"
  by (induction hdr) (auto simp: header_lines_def)

lemma header_lines_block:
  "(name, vs) \<in> set hdr \<Longrightarrow>
     \<exists>pre post. header_lines ul hdr = pre @ map (\<lambda>v. ToLower ul name @ '': '' @ v) vs @ post"
proof (induction hdr)
  case Nil
  then show ?case by simp
next
  case (Cons a hdr)
  show ?case
  proof (cases "a = (name, vs)")
    case True
    then have "header_lines ul (a # hdr) =
        [] @ map (\<lambda>v. ToLower ul name @ '': '' @ v) vs @ header_lines ul hdr"
      by (simp add: header_lines_def)
    then show ?thesis by blast
  next
    case False
    with Cons obtain pre post where
      "header_lines ul hdr = pre @ map (\<lambda>v. ToLower ul name @ '': '' @ v) vs @ post"
      by auto
    then have "header_lines ul (a # hdr) =
        (header_lines ul [a] @ pre) @ map (\<lambda>v. ToLower ul name @ '': '' @ v) vs @ post"
      by (simp add: header_lines_def)
    then show ?thesis by blast
  qed
qed

text \<open>The index into the result of \<open>strings.Split\<close> never panics.\<close>

lemma the_row_Inr:
  "\<exists>ip rest. Split_colon (RemoteAddr req) = ip # rest \<and>
     the_row ul req = Inr \<lparr>from_ip = ip, req_method = Method req, host = Host req,
        url = URL_String req, headers = Join (header_lines ul (Header req)) CRLF\<rparr>"
  using Split_colon_nonempty [of "RemoteAddr req"]
  by (cases "Split_colon (RemoteAddr req)") (simp_all add: the_row_def range_Header_eq)

text \<open>
  The three ways \<open>LogReq\<close> returns once \<open>Begin\<close> and \<open>Prepare\<close> have succeeded. The
  message of a failed commit prints \<open>err\<close>, the result of the insert, which is nil there.
\<close>

lemma LogReq_cases:
  assumes "begin_err oc = None" and "prepare_err oc = None" and "the_row ul req = Inr row"
  shows "LogReq ul logger req oc files =
     (if exec_err oc \<noteq> None then
        Inr (files, [Begin, Prepare insert_sql, Exec row,
               Logf (''Failed to write request to db, error '' @ Sprint_error (exec_err oc))])
      else if commit_err oc \<noteq> None then
        Inr (files, [Begin, Prepare insert_sql, Exec row, Commit,
               Logf (''Failed to commit request to db, error <nil>'')])
      else Inr (commit_rows (db logger) [row] files,
                [Begin, Prepare insert_sql, Exec row, Commit]))"
  using assms by (auto simp: LogReq_def Sprint_error_def split: option.splits)

lemma ToLower_examples:
  "ToLower id ''Accept'' = ''accept''" "ToLower id ''X-Id'' = ''x-id''"
  by code_simp+

lemma the_row_GET: "the_row id GET_request = Inr GET_row"
  by (simp add: the_row_def GET_request_def GET_row_def ToLower_examples Sprintf_header_def)

subsection \<open>NewLogger\<close>

text \<open>
  Claim C10. \<open>NewLogger\<close> ignores its argument: two calls that differ only in \<open>dbname\<close>
  have the same result; the handle of the logger names the file \<open>./log.db\<close>, and no other
  file of the disk is touched, whatever the argument was.
\<close>

theorem NewLogger_ignores_dbname:
  "NewLogger dbname oc files = NewLogger dbname' oc files \<and>
   (case NewLogger dbname oc files of
      Inl p \<Rightarrow> True
    | Inr (logger, err, files') \<Rightarrow>
        dataSourceName (db logger) = ''./log.db'' \<and>
        (\<forall>path. path \<noteq> ''./log.db'' \<longrightarrow> files' path = files path))"
  by (auto simp: NewLogger_def sql_Open_def create_table_def orPanic_def
           split: option.splits sum.splits)

theorem NewLogger_ignores_dbname_witness:
  "NewLogger ''db'' \<lparr>open_err = None, schema_err = None\<rparr> Map.empty
     = NewLogger ''other.db'' \<lparr>open_err = None, schema_err = None\<rparr> Map.empty \<and>
   NewLogger ''db'' \<lparr>open_err = None, schema_err = None\<rparr> Map.empty
     = Inr (\<lparr>db = \<lparr>driverName = ''sqlite3'', dataSourceName = ''./log.db''\<rparr>\<rparr>, None,
            [''./log.db'' \<mapsto> []]) \<and>
   ([''./log.db'' \<mapsto> []] :: disk) ''db'' = None"
  using NewLogger_ignores_dbname
    [of "''db''" "\<lparr>open_err = None, schema_err = None\<rparr>" Map.empty "''other.db''"]
  by (simp add: NewLogger_def sql_Open_def create_table_def orPanic_def)

subsection \<open>The headers column\<close>

text \<open>
  Claim C7. Whenever \<open>LogReq\<close> returns, the row it handed to the insert has as its headers
  column the lines of \<open>header_lines\<close> joined by CR LF: one line \<open>name: value\<close> per header
  occurrence with the name lower-cased. There are as many lines as header occurrences,
  and the lines of each entry of the map stand together, in the order of its value list;
  the order of the entries is that of the map traversal. When insert and commit both
  succeed, that row is the last row of the table.
\<close>

theorem LogReq_headers_column:
  assumes "LogReq ul logger req oc files = Inr (files', evs)"
  shows "\<exists>row. Exec row \<in> set evs
          \<and> headers row = Join (header_lines ul (Header req)) CRLF
          \<and> length (header_lines ul (Header req))
              = sum_list (map (\<lambda>(name, vs). length vs) (Header req))
          \<and> (\<forall>(name, vs) \<in> set (Header req). \<exists>pre post.
                header_lines ul (Header req)
                  = pre @ map (\<lambda>v. ToLower ul name @ '': '' @ v) vs @ post)
          \<and> (exec_err oc = None \<and> commit_err oc = None \<longrightarrow>
                (\<exists>rows. files' (dataSourceName (db logger)) = Some (rows @ [row])))"
proof -
  obtain ip rest where row:
    "the_row ul req = Inr \<lparr>from_ip = ip, req_method = Method req, host = Host req,
        url = URL_String req, headers = Join (header_lines ul (Header req)) CRLF\<rparr>"
    using the_row_Inr by blast
  define row where "row = \<lparr>from_ip = ip, req_method = Method req, host = Host req,
        url = URL_String req, headers = Join (header_lines ul (Header req)) CRLF\<rparr>"
  have ok: "begin_err oc = None" "prepare_err oc = None"
    using assms by (auto simp: LogReq_def split: if_splits)
  have r: "the_row ul req = Inr row" using row by (simp add: row_def)
  have 1: "Exec row \<in> set evs"
    using assms LogReq_cases [OF ok r, of logger files] by (auto split: if_splits)
  have 2: "headers row = Join (header_lines ul (Header req)) CRLF"
    by (simp add: row_def)
  have 3: "\<forall>(name, vs) \<in> set (Header req). \<exists>pre post.
             header_lines ul (Header req)
               = pre @ map (\<lambda>v. ToLower ul name @ '': '' @ v) vs @ post"
    using header_lines_block by fast
  have 4: "exec_err oc = None \<and> commit_err oc = None \<longrightarrow>
             (\<exists>rows. files' (dataSourceName (db logger)) = Some (rows @ [row]))"
    using assms LogReq_cases [OF ok r, of logger files]
    by (auto simp: commit_rows_def split: if_splits option.splits)
  from 1 2 3 4 header_lines_length show ?thesis by blast
qed

theorem LogReq_headers_column_witness:
  "LogReq id log_db GET_request tx_ok [''./log.db'' \<mapsto> []] =
     Inr ([''./log.db'' \<mapsto> [GET_row]], [Begin, Prepare insert_sql, Exec GET_row, Commit])
   \<and> Join (header_lines id (Header GET_request)) CRLF
       = ''accept: text/html'' @ CRLF @ ''accept: */*'' @ CRLF @ ''x-id: 7''"
proof -
  have run: "LogReq id log_db GET_request tx_ok [''./log.db'' \<mapsto> []] =
     Inr ([''./log.db'' \<mapsto> [GET_row]], [Begin, Prepare insert_sql, Exec GET_row, Commit])"
    by (simp add: LogReq_def the_row_GET log_db_def tx_ok_def commit_rows_def)
  from LogReq_headers_column [OF run] show ?thesis
    using run by (auto simp: GET_row_def)
qed

subsection \<open>The transaction\<close>

text \<open>
  Where \<open>Begin\<close> and \<open>Prepare\<close> succeed, \<open>LogReq\<close> returns without a panic, and it runs
  one transaction: begin, prepare, insert of the row of the request, and a commit only
  after a successful insert. If the call of \<open>stmt.Exec\<close> fails, the failure is logged,
  nothing is committed and the table is unchanged. If the commit fails, a failure is
  logged and the table is unchanged. If both succeed, nothing is logged and the table
  has gained exactly the inserted row; no other file changes.
\<close>

lemma LogReq_transaction:
  assumes "begin_err oc = None" and "prepare_err oc = None"
  shows "\<exists>row files' evs.
           LogReq ul logger req oc files = Inr (files', evs)
         \<and> the_row ul req = Inr row
         \<and> take 3 evs = [Begin, Prepare insert_sql, Exec row]
         \<and> length (filter (\<lambda>e. e = Begin) evs) = 1
         \<and> (exec_err oc \<noteq> None \<longrightarrow>
               files' = files \<and> Commit \<notin> set evs \<and>
               drop 3 evs = [Logf (''Failed to write request to db, error ''
                                   @ Sprint_error (exec_err oc))])
         \<and> (exec_err oc = None \<and> commit_err oc \<noteq> None \<longrightarrow>
               files' = files \<and> (\<exists>msg. drop 3 evs = [Commit, Logf msg]))
         \<and> (exec_err oc = None \<and> commit_err oc = None \<longrightarrow>
               drop 3 evs = [Commit] \<and>
               visible files' (dataSourceName (db logger))
                 = visible files (dataSourceName (db logger)) @ [row] \<and>
               (\<forall>path. path \<noteq> dataSourceName (db logger) \<longrightarrow> files' path = files path))"
proof -
  obtain row where r: "the_row ul req = Inr row"
    using the_row_Inr by blast
  show ?thesis
    using r LogReq_cases [OF assms r, of logger files]
    by (cases "exec_err oc"; cases "commit_err oc")
       (auto simp: commit_rows_def visible_def split: option.splits)
qed

lemma LogReq_insert_fails_example:
  "LogReq id log_db GET_request tx_insert_fails [''./log.db'' \<mapsto> []] =
     Inr ([''./log.db'' \<mapsto> []],
          [Begin, Prepare insert_sql, Exec GET_row,
           Logf ''Failed to write request to db, error attempt to write a readonly database''])"
  by (simp add: LogReq_def the_row_GET tx_insert_fails_def Sprint_error_def)

text \<open>
  Claim C5 (evaluated on the code). \<open>LogReq\<close> drops the errors of \<open>Begin\<close> and of
  \<open>Prepare\<close>, unlike those of \<open>stmt.Exec\<close> and \<open>Commit\<close>. When the transaction cannot be
  begun, or the insert statement cannot be prepared, the next call dereferences a nil
  pointer: \<open>LogReq\<close> panics instead of returning. The panic comes before either call of
  \<open>ctx.Logf\<close>, so the failure is not reported, and it leaves the function as a fault of
  the goroutine that serves the request.
\<close>

theorem LogReq_panics_without_report:
  assumes "begin_err oc = Some e \<or> prepare_err oc = Some e"
  shows "LogReq ul logger req oc files = Inl NilDereference"
  using assms by (auto simp: LogReq_def)

theorem LogReq_panics_without_report_witness:
  "prepare_err tx_prepare_fails = Some (Error ''no such table: requests'')
   \<and> LogReq id log_db GET_request tx_prepare_fails [''./log.db'' \<mapsto> []] = Inl NilDereference"
proof -
  have h: "prepare_err tx_prepare_fails = Some (Error ''no such table: requests'')"
    by (simp add: tx_prepare_fails_def)
  from LogReq_panics_without_report
         [OF disjI2 [OF h], of id log_db GET_request "[''./log.db'' \<mapsto> []]"] h
  show ?thesis by simp
qed

subsection \<open>The request handler\<close>

text \<open>
  Where \<open>Begin\<close> and \<open>Prepare\<close> succeed, the handler registered with \<open>DoFunc\<close> returns
  the request it was given, unchanged, and no response of its own, with the round
  tripper of the upstream transport installed, whatever the outcome of \<open>stmt.Exec\<close> and
  of the commit; after a failure of either the table is as it was. The handler returns
  only after \<open>LogReq\<close> has returned: the events of the transaction are all before it.
\<close>

lemma DoFunc_returns_request:
  assumes "begin_err oc = None" and "prepare_err oc = None"
  shows "\<exists>files' evs.
           DoFunc ul logger req ctx oc files =
             Inr (req, None, ctx\<lparr>RoundTripper := Some DetailedRoundTrip\<rparr>, files', evs)
         \<and> LogReq ul logger req oc files = Inr (files', evs)
         \<and> (exec_err oc \<noteq> None \<or> commit_err oc \<noteq> None \<longrightarrow> files' = files)"
proof -
  obtain row where r: "the_row ul req = Inr row"
    using the_row_Inr by blast
  show ?thesis
    using LogReq_cases [OF assms r, of logger files]
    by (auto simp: DoFunc_def)
qed

lemma DoFunc_commit_fails_example:
  "DoFunc id log_db GET_request \<lparr>RoundTripper = None\<rparr> tx_commit_fails [''./log.db'' \<mapsto> []] =
     Inr (GET_request, None, \<lparr>RoundTripper = Some DetailedRoundTrip\<rparr>, [''./log.db'' \<mapsto> []],
          [Begin, Prepare insert_sql, Exec GET_row, Commit,
           Logf ''Failed to commit request to db, error <nil>''])"
  by (simp add: DoFunc_def LogReq_def the_row_GET tx_commit_fails_def Sprint_error_def)

text \<open>
  Claim C6 (evaluated on the code). The handler calls \<open>LogReq\<close> before it returns. When
  the transaction cannot be begun or the insert statement cannot be prepared, the panic
  of \<open>LogReq\<close> is the panic of the handler: it returns neither the request nor a
  response, and the request in flight is not forwarded.
\<close>

theorem DoFunc_aborted_by_log_failure:
  assumes "begin_err oc = Some e \<or> prepare_err oc = Some e"
  shows "DoFunc ul logger req ctx oc files = Inl NilDereference"
  using assms by (auto simp: DoFunc_def LogReq_def)

theorem DoFunc_aborted_by_log_failure_witness:
  "prepare_err tx_prepare_fails = Some (Error ''no such table: requests'')
   \<and> DoFunc id log_db GET_request \<lparr>RoundTripper = None\<rparr> tx_prepare_fails
        [''./log.db'' \<mapsto> []] = Inl NilDereference"
proof -
  have h: "prepare_err tx_prepare_fails = Some (Error ''no such table: requests'')"
    by (simp add: tx_prepare_fails_def)
  from DoFunc_aborted_by_log_failure
         [OF disjI2 [OF h], of id log_db GET_request "\<lparr>RoundTripper = None\<rparr>"
            "[''./log.db'' \<mapsto> []]"] h
  show ?thesis by simp
qed

section \<open>Properties of the plaintext tunnel\<close>

subsection \<open>Helper facts\<close>

lemma sequential_no_read:
  "\<not> list_ex is_ReadRequest evs \<Longrightarrow> sequential ph evs"
  by (induction ph evs rule: sequential.induct) auto

text \<open>
  The monitor states a safety property: it accepts every prefix of what it accepts. So
  what holds of the events of every finite session holds of every moment of a session
  that never ends.
\<close>

lemma sequential_prefix: "sequential ph (xs @ ys) \<Longrightarrow> sequential ph xs"
  by (induction ph xs rule: sequential.induct) auto

text \<open>The monitor does reject a second read before the response went back.\<close>

lemma sequential_rejects_pipelining:
  "\<not> sequential Idle [ReadRequest (Inr q), Request_Write q None, ReadRequest (Inr q')]"
  by simp

lemma relay_loop_sequential:
  "\<not> list_ex is_ReadRequest rest \<Longrightarrow> sequential Idle (fst (relay_loop rounds) @ rest)"
proof (induction rounds)
  case Nil
  then show ?case by (simp add: sequential_no_read)
next
  case (Cons r rounds)
  then show ?case
    by (auto simp: orPanic_def sequential_no_read split: sum.splits option.splits prod.splits)
qed

lemma requests_read_append:
  "requests_read (xs @ ys) = requests_read xs @ requests_read ys"
  by (induction xs rule: requests_read.induct) auto

lemma responses_written_append:
  "responses_written (xs @ ys) = responses_written xs @ responses_written ys"
  by (induction xs rule: responses_written.induct) auto

lemma served_requests_read:
  "requests_read (fst (relay_loop (map served qrs))) = map fst qrs"
  by (induction qrs) (auto simp: served_def orPanic_def split: prod.splits)

lemma served_responses_written:
  "responses_written (fst (relay_loop (map served qrs))) = map snd qrs"
  by (induction qrs) (auto simp: served_def orPanic_def split: prod.splits)

lemma relay_loop_responses_le_requests:
  "length (responses_written (fst (relay_loop rounds)))
     \<le> length (requests_read (fst (relay_loop rounds)))"
  by (induction rounds) (auto simp: orPanic_def split: sum.splits option.splits prod.splits)

text \<open>The events of a tunnel whose dial succeeded: the loop always ends in a panic.\<close>

lemma HijackConnect_established:
  "HijackConnect req None rounds =
     [Dial ''tcp'' (URL_Host req), Write Client tunnel_established] @ fst (relay_loop rounds)
     @ [Logf (''error connecting to remote: '' @ Sprint_panic (snd (relay_loop rounds))),
        Write Client cannot_reach_remote, Close Client]"
  by (simp add: HijackConnect_def hijack_body_def orPanic_def deferred_def split: prod.splits)

lemma HijackConnect_dial_failed:
  "HijackConnect req (Some e) rounds =
     [Dial ''tcp'' (URL_Host req),
      Logf (''error connecting to remote: '' @ Sprint_error (Some e)),
      Write Client cannot_reach_remote, Close Client]"
  by (simp add: HijackConnect_def hijack_body_def orPanic_def deferred_def Sprint_panic_def)

lemma HijackConnect_sequential: "sequential Idle (HijackConnect req dial_err rounds)"
proof (cases dial_err)
  case None
  have "sequential Idle (fst (relay_loop rounds)
          @ [Logf (''error connecting to remote: '' @ Sprint_panic (snd (relay_loop rounds))),
             Write Client cannot_reach_remote, Close Client])"
    by (rule relay_loop_sequential) simp
  with None show ?thesis
    by (simp add: HijackConnect_established)
next
  case (Some e)
  then show ?thesis
    by (simp add: HijackConnect_dial_failed)
qed

subsection \<open>Ordering\<close>

text \<open>
  Claim C2. In every run of the tunnel handler the monitor \<open>sequential\<close> accepts the
  events: no request is read from the client while an earlier one still waits for its
  response to be written and flushed to the client; and there are never more responses
  written than requests read. On a tunnel on which the client
  sends N requests that are all served and then closes, the requests read are these N
  in their order, and the responses written with \<open>resp.Write\<close> are the N responses of
  the upstream in the same order, one per request.
\<close>

theorem relay_sequential_one_to_one:
  "sequential Idle (HijackConnect req dial_err rounds) \<and>
   length (responses_written (HijackConnect req dial_err rounds))
     \<le> length (requests_read (HijackConnect req dial_err rounds)) \<and>
   requests_read (HijackConnect req None (map served qrs)) = map fst qrs \<and>
   responses_written (HijackConnect req None (map served qrs)) = map snd qrs \<and>
   length (responses_written (HijackConnect req None (map served qrs))) = length qrs"
proof -
  have "length (responses_written (HijackConnect req dial_err rounds))
     \<le> length (requests_read (HijackConnect req dial_err rounds))"
    using relay_loop_responses_le_requests [of rounds]
    by (cases dial_err)
       (simp_all add: HijackConnect_established HijackConnect_dial_failed
          requests_read_append responses_written_append)
  then show ?thesis
    by (simp add: HijackConnect_sequential HijackConnect_established requests_read_append
          responses_written_append served_requests_read served_responses_written)
qed

text \<open>Two requests served in turn, then the client's end of file.\<close>

theorem relay_sequential_one_to_one_witness:
  "sequential Idle
     (HijackConnect CONNECT_request None
        [served (http10_request, ok_response), served (GET_request, ok_response)])
   \<and> requests_read
     (HijackConnect CONNECT_request None
        [served (http10_request, ok_response), served (GET_request, ok_response)])
     = [http10_request, GET_request]
   \<and> responses_written
     (HijackConnect CONNECT_request None
        [served (http10_request, ok_response), served (GET_request, ok_response)])
     = [ok_response, ok_response]"
  using relay_sequential_one_to_one
    [of CONNECT_request None
        "[served (http10_request, ok_response), served (GET_request, ok_response)]"
        "[(http10_request, ok_response), (GET_request, ok_response)]"]
  by simp

subsection \<open>What the client is told on a failure\<close>

lemma relay_loop_no_Close: "\<not> list_ex is_Close (fst (relay_loop rounds))"
  by (induction rounds) (auto simp: orPanic_def split: sum.splits option.splits prod.splits)

text \<open>
  Claim C3 (evaluated on the code). The deferred function does not look at how far the
  handler got. After a successful dial the tunnel-established reply is written, and
  when the loop ends, on whatever failure, the handler logs
  \<open>error connecting to remote\<close> and writes the \<open>500 Cannot reach remote\<close> status line
  to the client before it closes the connection. In particular this happens when the
  client closes a tunnel on which nothing was sent: \<open>http.ReadRequest\<close> returns
  \<open>io.EOF\<close> and the 500 line follows the 200 line.
\<close>

theorem HijackConnect_500_after_200:
  "HijackConnect req None rounds =
     [Dial ''tcp'' (URL_Host req), Write Client tunnel_established] @ fst (relay_loop rounds)
     @ [Logf (''error connecting to remote: '' @ Sprint_panic (snd (relay_loop rounds))),
        Write Client cannot_reach_remote, Close Client]
   \<and> HijackConnect CONNECT_request None [] =
     [Dial ''tcp'' ''example.com:80'', Write Client tunnel_established,
      ReadRequest (Inl EOF), Logf ''error connecting to remote: EOF'',
      Write Client cannot_reach_remote, Close Client]"
  by (simp add: HijackConnect_established CONNECT_request_def Sprint_panic_def Sprint_error_def
        EOF_def)

subsection \<open>Which connections are closed\<close>

text \<open>
  Claim C4 (evaluated on the code). Every run of the handler ends with the close of the
  client connection, and that is its only close: no run closes the connection to the
  remote side that \<open>net.Dial\<close> returned. So after a served request and the client's
  end of file the events hold a close of the client and none of the remote.
\<close>

theorem HijackConnect_never_closes_remote:
  "Close Remote \<notin> set (HijackConnect req dial_err rounds)
   \<and> filter is_Close (HijackConnect req dial_err rounds) = [Close Client]
   \<and> last (HijackConnect req dial_err rounds) = Close Client
   \<and> HijackConnect CONNECT_request None [served (http10_request, ok_response)] =
     [Dial ''tcp'' ''example.com:80'', Write Client tunnel_established,
      ReadRequest (Inr http10_request), Request_Write http10_request None, Flush Remote None,
      ReadResponse http10_request (Inr ok_response), Response_Write ok_response None,
      Flush Client None,
      ReadRequest (Inl EOF), Logf ''error connecting to remote: EOF'',
      Write Client cannot_reach_remote, Close Client]"
proof -
  have f: "filter is_Close (fst (relay_loop rounds)) = []"
    using relay_loop_no_Close [of rounds] by (simp add: list_ex_iff filter_empty_conv)
  have 2: "filter is_Close (HijackConnect req dial_err rounds) = [Close Client]"
    by (cases dial_err) (simp_all add: HijackConnect_established HijackConnect_dial_failed f)
  have "Close Remote \<notin> set (filter is_Close (HijackConnect req dial_err rounds))"
    unfolding 2 by simp
  then have 1: "Close Remote \<notin> set (HijackConnect req dial_err rounds)"
    by simp
  have 3: "last (HijackConnect req dial_err rounds) = Close Client"
    by (cases dial_err) (simp_all add: HijackConnect_established HijackConnect_dial_failed)
  have 4: "HijackConnect CONNECT_request None [served (http10_request, ok_response)] =
     [Dial ''tcp'' ''example.com:80'', Write Client tunnel_established,
      ReadRequest (Inr http10_request), Request_Write http10_request None, Flush Remote None,
      ReadResponse http10_request (Inr ok_response), Response_Write ok_response None,
      Flush Client None,
      ReadRequest (Inl EOF), Logf ''error connecting to remote: EOF'',
      Write Client cannot_reach_remote, Close Client]"
    by (simp add: HijackConnect_established served_def orPanic_def CONNECT_request_def
          Sprint_panic_def Sprint_error_def EOF_def)
  from 1 2 3 4 show ?thesis by blast
qed

subsection \<open>What is handed to Write\<close>

lemma unmodified_no_relay_event:
  "\<not> list_ex is_relay_event evs \<Longrightarrow> unmodified q r evs"
  by (induction q r evs rule: unmodified.induct) auto

lemma relay_loop_unmodified:
  "\<not> list_ex is_relay_event rest \<Longrightarrow> unmodified q r (fst (relay_loop rounds) @ rest)"
proof (induction rounds arbitrary: q r)
  case Nil
  then show ?case by (simp add: unmodified_no_relay_event)
next
  case (Cons a rounds)
  then show ?case
    by (auto simp: orPanic_def unmodified_no_relay_event
             split: sum.splits option.splits prod.splits)
qed

lemma HijackConnect_unmodified: "unmodified None None (HijackConnect req dial_err rounds)"
proof (cases dial_err)
  case None
  have "unmodified None None (fst (relay_loop rounds)
          @ [Logf (''error connecting to remote: '' @ Sprint_panic (snd (relay_loop rounds))),
             Write Client cannot_reach_remote, Close Client])"
    by (rule relay_loop_unmodified) simp
  with None show ?thesis
    by (simp add: HijackConnect_established)
next
  case (Some e)
  then show ?thesis
    by (simp add: HijackConnect_dial_failed)
qed

lemma upstream_bytes_append:
  "upstream_bytes rest (xs @ ys) = upstream_bytes rest xs @ upstream_bytes rest ys"
  by (induction rest xs rule: upstream_bytes.induct) auto

lemma served_upstream_bytes:
  "upstream_bytes rest (fst (relay_loop (map served qrs)))
     = concat (map (\<lambda>qr. Request_Write_bytes rest (fst qr)) qrs)"
  by (induction qrs) (auto simp: served_def orPanic_def split: prod.splits)

lemma first_line_http10: "first_line http10_bytes = Some ''GET / HTTP/1.0''"
  by (simp add: first_line_def http10_bytes_def CRLF_def line_feed_def)

lemma parse_http10:
  "parseRequestLine ''GET / HTTP/1.0'' = Some (''GET'', ''/'', ''HTTP/1.0'')"
  by (simp add: parseRequestLine_def)

text \<open>
  Claim C8, as stated, fails: the client sends the request \<open>GET / HTTP/1.0\<close>; its request
  line is parsed into the fields of \<open>http10_request\<close>; the tunnel writes that request
  to the remote side, and whatever \<open>req.Write\<close> prints after the request line, the
  bytes differ from those the client sent, for the line printed says \<open>HTTP/1.1\<close>.
\<close>

theorem relay_not_verbatim_counterexample:
  "read_request_line http10_bytes
     = Some (Method http10_request, URL_RequestURI http10_request, Proto http10_request)
   \<and> Request_Write http10_request None
       \<in> set (HijackConnect CONNECT_request None [served (http10_request, ok_response)])
   \<and> (\<forall>rest. Request_Write_bytes rest http10_request \<noteq> http10_bytes)
   \<and> (\<forall>rest. upstream_bytes rest
                (HijackConnect CONNECT_request None [served (http10_request, ok_response)])
              \<noteq> http10_bytes)"
proof -
  have 1: "read_request_line http10_bytes
     = Some (Method http10_request, URL_RequestURI http10_request, Proto http10_request)"
    by (simp add: read_request_line_def first_line_http10 parse_http10 http10_request_def)
  have 2: "Request_Write http10_request None
       \<in> set (HijackConnect CONNECT_request None [served (http10_request, ok_response)])"
    by (simp add: HijackConnect_established served_def orPanic_def)
  have 3: "Request_Write_bytes rest http10_request \<noteq> http10_bytes" for rest
    by (simp add: Request_Write_bytes_def request_line_def write_ruri_def http10_request_def
          http10_bytes_def)
  have "upstream_bytes rest
          (HijackConnect CONNECT_request None [served (http10_request, ok_response)])
        = Request_Write_bytes rest http10_request" for rest
    by (simp add: HijackConnect_established served_def orPanic_def)
  with 3 have 4: "upstream_bytes rest
          (HijackConnect CONNECT_request None [served (http10_request, ok_response)])
        \<noteq> http10_bytes" for rest
    by simp
  from 1 2 3 4 show ?thesis by blast
qed

text \<open>
  Claim C8, amended. The tunnel hands over what it parsed, unchanged: in every run the
  request given to \<open>req.Write\<close> (and to \<open>http.ReadResponse\<close>) is the request just read
  from the client, and the response given to \<open>resp.Write\<close> is the response just read
  from the remote side. The bytes that reach the remote side are the wire forms that
  \<open>req.Write\<close> prints for the requests read, in their order, and each begins with a
  request line that ends in \<open>HTTP/1.1\<close>; they are not a copy of the bytes received.
\<close>

theorem relay_hands_over_unmodified:
  "unmodified None None (HijackConnect req dial_err rounds)
   \<and> upstream_bytes rest (HijackConnect req None (map served qrs))
       = concat (map (\<lambda>qr. Request_Write_bytes rest (fst qr)) qrs)
   \<and> responses_written (HijackConnect req None (map served qrs)) = map snd qrs
   \<and> (\<exists>line. Request_Write_bytes rest q = line @ '' HTTP/1.1'' @ CRLF @ rest q)"
proof -
  have "Request_Write_bytes rest q =
      ((if Method q = [] then ''GET'' else Method q) @ '' '' @ write_ruri q)
      @ '' HTTP/1.1'' @ CRLF @ rest q"
    by (simp add: Request_Write_bytes_def request_line_def)
  then have 4: "\<exists>line. Request_Write_bytes rest q = line @ '' HTTP/1.1'' @ CRLF @ rest q"
    by blast
  show ?thesis
    using 4
    by (simp add: HijackConnect_unmodified HijackConnect_established upstream_bytes_append
          served_upstream_bytes responses_written_append served_responses_written)
qed

section \<open>Properties of the stoppable listener\<close>

lemma Accept_increments:
  "0 \<le> counter (wg sl) \<Longrightarrow>
     \<exists>sl'. Accept sl None = Inr (sl', Some (accepted sl), None)
          \<and> counter (wg sl') = counter (wg sl) + 1"
  by (simp add: Accept_def Add_def)

lemma Accept_error_unchanged: "Accept sl (Some e) = Inr (sl, None, Some e)"
  by (simp add: Accept_def)

lemma Close_decrements:
  "0 < counter (wg sl) \<Longrightarrow>
     \<exists>sl' e. Close_conn sl c = Inr (sl', e) \<and> counter (wg sl') = counter (wg sl) - 1"
  by (simp add: Close_conn_def Done_def Add_def)

lemma run_calls_counts:
  "counts_unclosed sl \<Longrightarrow> numbered_below sl \<Longrightarrow> closes_once sl cs \<Longrightarrow>
     \<exists>sl'. run_calls sl cs = Inr sl' \<and> counts_unclosed sl' \<and> numbered_below sl'"
proof (induction cs arbitrary: sl)
  case Nil
  then show ?case by simp
next
  case (Cons a cs)
  show ?case
  proof (cases a)
    case (AcceptCall err)
    show ?thesis
    proof (cases err)
      case None
      let ?sl = "sl\<lparr>wg := (wg sl)\<lparr>counter := counter (wg sl) + 1\<rparr>,
                    accepted := Suc (accepted sl),
                    unclosed := insert (accepted sl) (unclosed sl)\<rparr>"
      have nn: "0 \<le> counter (wg sl)"
        using Cons.prems(1) by (simp add: counts_unclosed_def)
      have acc: "Accept sl None = Inr (?sl, Some (accepted sl), None)"
        using nn by (simp add: Accept_def Add_def)
      have notin: "accepted sl \<notin> unclosed sl"
        using Cons.prems(2) by (auto simp: numbered_below_def)
      have 1: "counts_unclosed ?sl"
        using Cons.prems(1) notin by (simp add: counts_unclosed_def)
      have 2: "numbered_below ?sl"
        using Cons.prems(2) by (auto simp: numbered_below_def)
      have 3: "closes_once ?sl cs"
        using Cons.prems(3) AcceptCall None acc by simp
      from Cons.IH [OF 1 2 3] show ?thesis
        using AcceptCall None acc by simp
    next
      case (Some e)
      then have acc: "Accept sl err = Inr (sl, None, Some e)"
        by (simp add: Accept_def)
      have 3: "closes_once sl cs"
        using Cons.prems(3) AcceptCall acc by simp
      from Cons.IH [OF Cons.prems(1) Cons.prems(2) 3] show ?thesis
        using AcceptCall acc by simp
    qed
  next
    case (CloseCall c)
    have cin: "c \<in> unclosed sl"
      using Cons.prems(3) CloseCall by simp
    have fin: "finite (unclosed sl)" and cnt: "counter (wg sl) = int (card (unclosed sl))"
      using Cons.prems(1) by (simp_all add: counts_unclosed_def)
    have pos: "0 < card (unclosed sl)"
      using cin fin by (auto simp: card_gt_0_iff)
    let ?sl = "sl\<lparr>wg := (wg sl)\<lparr>counter := counter (wg sl) - 1\<rparr>,
                  unclosed := unclosed sl - {c}\<rparr>"
    have cl: "Close_conn sl c = Inr (?sl, None)"
      using cin cnt pos by (simp add: Close_conn_def Done_def Add_def)
    have 1: "counts_unclosed ?sl"
      using cin fin cnt pos by (simp add: counts_unclosed_def card_Diff_singleton)
    have 2: "numbered_below ?sl"
      using Cons.prems(2) by (auto simp: numbered_below_def)
    have 3: "closes_once ?sl cs"
      using Cons.prems(3) CloseCall cl by simp
    from Cons.IH [OF 1 2 3] show ?thesis
      using CloseCall cl by simp
  qed
qed

text \<open>
  Claim C9, as stated, fails when a connection is closed twice. Two connections are
  accepted and the first is closed twice: the counter is zero and \<open>Wait\<close> returns while
  the second connection is still unclosed. One connection accepted and closed twice:
  the second \<open>Close\<close> does not decrement the counter, it panics.
\<close>

theorem double_Close_counterexample:
  "run_calls newStoppableListener [AcceptCall None, AcceptCall None, CloseCall 0, CloseCall 0]
     = Inr \<lparr>wg = \<lparr>counter = 0\<rparr>, accepted = 2, unclosed = {1}\<rparr>
   \<and> Wait_returns \<lparr>counter = 0\<rparr>
   \<and> run_calls newStoppableListener [AcceptCall None, CloseCall 0, CloseCall 0]
     = Inl (Panic (Error ''sync: negative WaitGroup counter''))"
  by (simp add: newStoppableListener_def Accept_def Close_conn_def Done_def Add_def
        Wait_returns_def insert_commute)

text \<open>
  Claim C9, amended. A successful \<open>Accept\<close> increments the counter by one, a failed one
  leaves the listener as it was, and a \<open>Close\<close> decrements the counter by one as long as
  it is positive. On a new listener, as long as no connection is closed more than once,
  no call panics and the counter is the number of accepted connections that are not
  closed; so \<open>Wait\<close> returns exactly when none is left.
\<close>

theorem listener_counts_unclosed:
  assumes "closes_once newStoppableListener cs"
  shows "\<exists>sl. run_calls newStoppableListener cs = Inr sl
          \<and> counter (wg sl) = int (card (unclosed sl))
          \<and> (Wait_returns (wg sl) \<longleftrightarrow> unclosed sl = {})
          \<and> (\<exists>sl'. Accept sl None = Inr (sl', Some (accepted sl), None)
                \<and> counter (wg sl') = counter (wg sl) + 1)
          \<and> (\<forall>e. Accept sl (Some e) = Inr (sl, None, Some e))
          \<and> (\<forall>c. 0 < counter (wg sl) \<longrightarrow>
                (\<exists>sl' e. Close_conn sl c = Inr (sl', e)
                   \<and> counter (wg sl') = counter (wg sl) - 1))"
proof -
  have "counts_unclosed newStoppableListener" "numbered_below newStoppableListener"
    by (simp_all add: counts_unclosed_def numbered_below_def newStoppableListener_def)
  from run_calls_counts [OF this assms] obtain sl where
    run: "run_calls newStoppableListener cs = Inr sl" and inv: "counts_unclosed sl"
    by blast
  have fin: "finite (unclosed sl)" and cnt: "counter (wg sl) = int (card (unclosed sl))"
    using inv by (simp_all add: counts_unclosed_def)
  have w: "Wait_returns (wg sl) \<longleftrightarrow> unclosed sl = {}"
    using fin cnt by (simp add: Wait_returns_def)
  have nn: "0 \<le> counter (wg sl)"
    using cnt by simp
  from run cnt w Accept_increments [OF nn] Accept_error_unchanged Close_decrements
  show ?thesis by blast
qed

theorem listener_counts_unclosed_witness:
  "closes_once newStoppableListener [AcceptCall None, AcceptCall None, CloseCall 0]
   \<and> run_calls newStoppableListener [AcceptCall None, AcceptCall None, CloseCall 0]
     = Inr \<lparr>wg = \<lparr>counter = 1\<rparr>, accepted = 2, unclosed = {1}\<rparr>
   \<and> \<not> Wait_returns \<lparr>counter = 1\<rparr>"
proof -
  have h: "closes_once newStoppableListener [AcceptCall None, AcceptCall None, CloseCall 0]"
    by (simp add: newStoppableListener_def Accept_def Close_conn_def Done_def Add_def)
  have r: "run_calls newStoppableListener [AcceptCall None, AcceptCall None, CloseCall 0]
     = Inr \<lparr>wg = \<lparr>counter = 1\<rparr>, accepted = 2, unclosed = {1}\<rparr>"
    by (simp add: newStoppableListener_def Accept_def Close_conn_def Done_def Add_def
          insert_commute)
  from listener_counts_unclosed [OF h] h r show ?thesis
    by (simp add: Wait_returns_def)
qed

section \<open>Properties of the CONNECT dispatch\<close>

lemma MatchString_any_host: "MatchString re_any_host s \<longleftrightarrow> line_feed \<notin> set s"
  by (induction s) (auto simp: re_any_host_def)

lemma MatchString_literal_80:
  "MatchString [Char CHR '':'', Char CHR ''8'', Char CHR ''0''] s \<longleftrightarrow> s = '':80''"
proof (cases s)
  case Nil
  then show ?thesis by simp
next
  case s1: (Cons a s1)
  show ?thesis
  proof (cases s1)
    case Nil
    with s1 show ?thesis by simp
  next
    case s2: (Cons b s2)
    show ?thesis
    proof (cases s2)
      case Nil
      with s1 s2 show ?thesis by simp
    next
      case s3: (Cons c s3)
      with s1 s2 show ?thesis by (cases s3) auto
    qed
  qed
qed

lemma MatchString_port_80:
  "MatchString re_port_80 s \<longleftrightarrow> (\<exists>p. s = p @ '':80'' \<and> line_feed \<notin> set p)"
proof (induction s)
  case Nil
  then show ?case by (simp add: re_port_80_def)
next
  case (Cons x s)
  have step: "MatchString re_port_80 (x # s) \<longleftrightarrow>
      x # s = '':80'' \<or> (x \<noteq> line_feed \<and> MatchString re_port_80 s)"
    using MatchString_literal_80 [of "x # s"] by (simp add: re_port_80_def)
  have split: "(\<exists>p. x # s = p @ '':80'' \<and> line_feed \<notin> set p) \<longleftrightarrow>
      x # s = '':80'' \<or> (x \<noteq> line_feed \<and> (\<exists>p. s = p @ '':80'' \<and> line_feed \<notin> set p))"
  proof
    assume "\<exists>p. x # s = p @ '':80'' \<and> line_feed \<notin> set p"
    then obtain p where p: "x # s = p @ '':80''" "line_feed \<notin> set p" by blast
    show "x # s = '':80'' \<or> (x \<noteq> line_feed \<and> (\<exists>p. s = p @ '':80'' \<and> line_feed \<notin> set p))"
    proof (cases p)
      case Nil
      with p show ?thesis by simp
    next
      case (Cons y p')
      with p have "x = y" "s = p' @ '':80''" "y \<noteq> line_feed" "line_feed \<notin> set p'"
        by auto
      then show ?thesis by blast
    qed
  next
    assume "x # s = '':80'' \<or> (x \<noteq> line_feed \<and> (\<exists>p. s = p @ '':80'' \<and> line_feed \<notin> set p))"
    then show "\<exists>p. x # s = p @ '':80'' \<and> line_feed \<notin> set p"
    proof
      assume "x # s = '':80''"
      then have "x # s = [] @ '':80'' \<and> line_feed \<notin> set []" by simp
      then show ?thesis by blast
    next
      assume "x \<noteq> line_feed \<and> (\<exists>p. s = p @ '':80'' \<and> line_feed \<notin> set p)"
      then obtain p where "x \<noteq> line_feed" "s = p @ '':80''" "line_feed \<notin> set p" by blast
      then have "x # s = (x # p) @ '':80'' \<and> line_feed \<notin> set (x # p)" by simp
      then show ?thesis by blast
    qed
  qed
  from step split Cons.IH show ?case by simp
qed

lemma port_80_has_no_line_feed: "line_feed \<notin> set '':80''"
  by (simp add: line_feed_def)

lemma hijack_handler_answers:
  assumes "line_feed \<notin> set (Host req)"
  shows "hijack_handler req = Some ConnectHijack \<longleftrightarrow> (\<exists>p. Host req = p @ '':80'')"
proof
  assume "hijack_handler req = Some ConnectHijack"
  then have "ReqHostMatches re_port_80 req"
    by (simp add: hijack_handler_def split: if_splits)
  then show "\<exists>p. Host req = p @ '':80''"
    by (auto simp: ReqHostMatches_def MatchString_port_80)
next
  assume "\<exists>p. Host req = p @ '':80''"
  then obtain p where p: "Host req = p @ '':80''" by blast
  with assms have "line_feed \<notin> set p" by simp
  with p have "ReqHostMatches re_port_80 req"
    unfolding ReqHostMatches_def MatchString_port_80 by blast
  then show "hijack_handler req = Some ConnectHijack"
    by (simp add: hijack_handler_def)
qed

text \<open>
  Claim C1 (evaluated on the code). main.go registers the handler for \<open>^.*$\<close> before the
  handler for \<open>^.*:80$\<close>. For a CONNECT request whose host holds no line feed (no parsed
  request has one) the first handler always answers, with \<open>MitmConnect\<close>; the second
  would answer with the hijack action exactly when the host ends in \<open>:80\<close>, but the loop
  has stopped at the first answer. So every CONNECT request is sent to the MITM path,
  a target on port 80 included, and the plaintext tunnel is never chosen.
\<close>

theorem connect_port_80_goes_to_mitm:
  assumes "line_feed \<notin> set (Host req)"
  shows "mitm_handler req = Some MitmConnect
       \<and> (hijack_handler req = Some ConnectHijack \<longleftrightarrow> (\<exists>p. Host req = p @ '':80''))
       \<and> connect_action req = ConnectMitm"
proof -
  have any: "mitm_handler req = Some MitmConnect"
    using assms by (simp add: mitm_handler_def ReqHostMatches_def MatchString_any_host)
  then have "connect_action req = ConnectMitm"
    by (simp add: connect_action_def httpsHandlers_def MitmConnect_def)
  with any hijack_handler_answers [OF assms] show ?thesis by simp
qed

theorem connect_port_80_goes_to_mitm_witness:
  "line_feed \<notin> set (Host CONNECT_request)
   \<and> Host CONNECT_request = ''example.com:80''
   \<and> mitm_handler CONNECT_request = Some MitmConnect
   \<and> hijack_handler CONNECT_request = Some ConnectHijack
   \<and> connect_action CONNECT_request = ConnectMitm"
proof -
  have h: "line_feed \<notin> set (Host CONNECT_request)"
    by (simp add: CONNECT_request_def line_feed_def)
  have e: "\<exists>p. Host CONNECT_request = p @ '':80''"
  proof
    show "Host CONNECT_request = ''example.com'' @ '':80''"
      by (simp add: CONNECT_request_def)
  qed
  have n: "Host CONNECT_request = ''example.com:80''"
    by (simp add: CONNECT_request_def)
  from connect_port_80_goes_to_mitm [OF h] h e n
  show ?thesis by simp
qed

end
